theory Spec2Isabelle
  imports Complex_Main
begin

section \<open>Shared declarations\<close>

text \<open>
  The C++ sources compute in \<open>float\<close>. The embedding reads every \<open>float\<close> as a real
  number: it has no rounding, no infinities and no NaN. A \<open>float\<close> constant that a
  comparison reads is the exact value of its literal (\<open>0.1f\<close> is not one tenth). The enum of stabilizer.hpp
  (\<open>AXIS_ROLL = 0, AXIS_PITCH, AXIS_YAW\<close>) is a datatype, and an array indexed by it
  (\<open>float x[3]\<close>) is a function from the axis to its entry.
\<close>

datatype axis = AXIS_ROLL | AXIS_PITCH | AXIS_YAW

text \<open>The macro \<open>M_PI\<close> of \<open>math.h\<close> expands to this decimal literal.\<close>

definition M_PI :: real where
  "M_PI = 3.14159265358979323846"

text \<open>
  Modelled from the spec: filter.hpp (class \<open>Filter\<close>) is missing from the sources.
  What the code calls of it is \<open>constrainAbs\<close> (the spec: "clamped to
  \<open>\<plusminus>gyroWindupMax\<close>", "clamped to \<open>\<plusminus>(0.1 + |yaw|)\<close>"), \<open>max\<close>
  (the spec: \<open>max(|rollDemand|,|pitchDemand|)\<close>), \<open>complementary\<close> (the spec: a
  weighted linear combination, the weight \<open>prop = 1\<close> giving the first argument and
  \<open>prop = 0\<close> the second) and \<open>deg2rad\<close> (the spec: degrees "converted to
  radians", as \<open>Stabilizer::degreesToRadians\<close> does).
\<close>

definition Filter_constrainAbs :: "real \<Rightarrow> real \<Rightarrow> real" where
  "Filter_constrainAbs v m = (if v < - m then - m else if v > m then m else v)"

definition Filter_max :: "real \<Rightarrow> real \<Rightarrow> real" where
  "Filter_max a b = (if a > b then a else b)"

definition Filter_complementary :: "real \<Rightarrow> real \<Rightarrow> real \<Rightarrow> real" where
  "Filter_complementary a b c = a * c + b * (1 - c)"

definition Filter_deg2rad :: "real \<Rightarrow> real" where
  "Filter_deg2rad degrees = M_PI * degrees / 180"

section \<open>hackflight.hpp: the arming and safety controller\<close>

text \<open>
  \<open>state_t\<close> is declared in datatypes.hpp, which is missing; these are the fields
  hackflight.hpp reads and writes.
\<close>

record state_t =
  armed :: bool
  failsafe :: bool
  rotation :: "axis \<Rightarrow> real"

text \<open>
  The receiver is an external collaborator. One \<open>Receiver\<close> value holds what its
  methods answer during one call of \<open>checkReceiver\<close>: \<open>lostSignal()\<close>, the result of
  \<open>getDemands(yawOffset)\<close> as a function of its argument, and the getters
  \<open>getAux1State()\<close> and \<open>throttleIsDown()\<close>, which answer the same at each of their
  calls within one \<open>checkReceiver\<close>.
\<close>

record Receiver =
  lostSignal :: bool
  getDemands :: "real \<Rightarrow> bool"
  getAux1State :: bool
  throttleIsDown :: bool

datatype sensor_id = Gyrometer | Quaternion | OtherSensor nat

text \<open>
  A sensor answers \<open>ready(time)\<close> and rewrites the vehicle state in
  \<open>modifyState(state, time)\<close>.
\<close>

record Sensor =
  ident :: sensor_id
  ready :: "real \<Rightarrow> bool"
  modifyState :: "state_t \<Rightarrow> real \<Rightarrow> state_t"

text \<open>
  The calls the controller makes on its collaborators (actuator, board, receiver,
  sensors, timer tasks, proxy), in the order it makes them.
\<close>

datatype call =
    ActuatorCut
  | ShowArmedStatus bool
  | ReceiverGetDemands real
  | PidTaskUpdate
  | SensorReady sensor_id
  | SensorModifyState sensor_id
  | SerialTaskUpdate
  | ProxySendDisarmed

datatype updater_t = UpdateFull | UpdateLite

text \<open>
  The fields of class \<open>Hackflight\<close> the control loop uses. \<open>sensors\<close> holds the
  sensors the loop of \<open>checkOptionalSensors\<close> polls, in order:
  \<open>_sensors[0 .. _sensor_count - 1]\<close>, at most 255 of them since \<open>_sensor_count\<close> is a
  \<open>uint8_t\<close>. \<open>calls\<close> is the log of calls made so far.
\<close>

record Hackflight =
  state :: state_t
  safeToArm :: bool
  yawInitial :: real
  gyrometer :: Sensor
  quaternion :: Sensor
  sensors :: "Sensor list"
  updater :: updater_t
  calls :: "call list"

definition MAX_ARMING_ANGLE_DEGREES :: real where
  "MAX_ARMING_ANGLE_DEGREES = 25"

definition safeAngle :: "Hackflight \<Rightarrow> axis \<Rightarrow> bool" where
  "safeAngle h ax = (\<bar>rotation (state h) ax\<bar> < Filter_deg2rad MAX_ARMING_ANGLE_DEGREES)"

definition logCall :: "call \<Rightarrow> Hackflight \<Rightarrow> Hackflight" where
  "logCall c h = h\<lparr>calls := calls h @ [c]\<rparr>"

definition setArmed :: "bool \<Rightarrow> Hackflight \<Rightarrow> Hackflight" where
  "setArmed b h = h\<lparr>state := (state h)\<lparr>armed := b\<rparr>\<rparr>"

definition setFailsafe :: "bool \<Rightarrow> Hackflight \<Rightarrow> Hackflight" where
  "setFailsafe b h = h\<lparr>state := (state h)\<lparr>failsafe := b\<rparr>\<rparr>"

text \<open>
  \<open>Hackflight::checkReceiver\<close>, statement by statement: the failsafe branch and the
  no-new-data branch return early.
\<close>

definition checkReceiver :: "Receiver \<Rightarrow> Hackflight \<Rightarrow> Hackflight" where
  "checkReceiver rx h =
    (if lostSignal rx \<and> armed (state h) then
       logCall (ShowArmedStatus False)
         (setFailsafe True (setArmed False (logCall ActuatorCut h)))
     else
       let yawOffset = rotation (state h) AXIS_YAW - yawInitial h;
           h0 = logCall (ReceiverGetDemands yawOffset) h
       in if getDemands rx yawOffset then
            let h1 = (if armed (state h0) \<and> \<not> getAux1State rx
                      then setArmed False h0 else h0);
                h2 = (if \<not> safeToArm h1
                      then h1\<lparr>safeToArm := \<not> getAux1State rx\<rparr> else h1);
                h3 = (if safeToArm h2 \<and> \<not> armed (state h2) \<and> throttleIsDown rx
                         \<and> getAux1State rx \<and> \<not> failsafe (state h2)
                         \<and> safeAngle h2 AXIS_ROLL \<and> safeAngle h2 AXIS_PITCH
                      then (setArmed True h2)\<lparr>yawInitial := rotation (state h2) AXIS_YAW\<rparr>
                      else h2);
                h4 = (if armed (state h3) \<and> throttleIsDown rx
                      then logCall ActuatorCut h3 else h3)
            in logCall (ShowArmedStatus (armed (state h4))) h4
          else h0)"

text \<open>
  The sensor checks. \<open>checkGyrometer\<close>, \<open>checkQuaternion\<close> and the body of the loop
  of \<open>checkOptionalSensors\<close> are the same three statements on different sensors; the
  board's clock (\<open>_board->getTime()\<close>) is read as one value \<open>time\<close> per tick.
\<close>

definition checkSensor :: "real \<Rightarrow> Sensor \<Rightarrow> Hackflight \<Rightarrow> Hackflight" where
  "checkSensor time sensor h =
    (let h0 = logCall (SensorReady (ident sensor)) h
     in if ready sensor time
        then logCall (SensorModifyState (ident sensor))
               (h0\<lparr>state := modifyState sensor (state h0) time\<rparr>)
        else h0)"

definition checkGyrometer :: "real \<Rightarrow> Hackflight \<Rightarrow> Hackflight" where
  "checkGyrometer time h = checkSensor time (gyrometer h) h"

definition checkQuaternion :: "real \<Rightarrow> Hackflight \<Rightarrow> Hackflight" where
  "checkQuaternion time h = checkSensor time (quaternion h) h"

fun checkSensorList :: "real \<Rightarrow> Sensor list \<Rightarrow> Hackflight \<Rightarrow> Hackflight" where
  "checkSensorList time [] h = h"
| "checkSensorList time (sensor # rest) h = checkSensorList time rest (checkSensor time sensor h)"

definition checkOptionalSensors :: "real \<Rightarrow> Hackflight \<Rightarrow> Hackflight" where
  "checkOptionalSensors time h = checkSensorList time (sensors h) h"

text \<open>
  \<open>_sensors[_sensor_count++] = sensor\<close>. With 255 sensors registered the new one goes to
  the last slot of the array and the \<open>uint8_t\<close> counter wraps to 0: the polled range is
  empty again, and the registrations that follow overwrite the array from its start.
\<close>

definition add_sensor :: "Sensor \<Rightarrow> Hackflight \<Rightarrow> Hackflight" where
  "add_sensor sensor h =
    (if length (sensors h) < 255
     then h\<lparr>sensors := sensors h @ [sensor]\<rparr>
     else h\<lparr>sensors := []\<rparr>)"

text \<open>
  Modelled from the spec: timertasks/pidtask.hpp and timertasks/serialtask.hpp are
  missing from the sources. The spec (4.3) has the PID stage "run Stabilizer; hand
  corrected demands to Actuator" and the serial task "service telemetry/serial task";
  what they do inside is outside the model, and \<open>_pidTask.update()\<close> and
  \<open>_serialTask.update()\<close> are one logged call each.
\<close>

definition updateLite :: "Hackflight \<Rightarrow> Hackflight" where
  "updateLite h =
    (let h1 = (if \<not> armed (state h) then logCall ProxySendDisarmed h else h)
     in logCall SerialTaskUpdate h1)"

definition updateFull :: "real \<Rightarrow> Hackflight \<Rightarrow> Hackflight" where
  "updateFull time h =
    (let h1 = checkGyrometer time h;
         h2 = checkQuaternion time h1;
         h3 = checkOptionalSensors time h2
     in logCall SerialTaskUpdate h3)"

text \<open>\<open>Hackflight::update\<close>: one tick of the control loop.\<close>

definition update :: "Receiver \<Rightarrow> real \<Rightarrow> Hackflight \<Rightarrow> Hackflight" where
  "update rx time h =
    (let h1 = checkReceiver rx h;
         h2 = logCall PidTaskUpdate h1
     in case updater h2 of
          UpdateFull \<Rightarrow> updateFull time h2
        | UpdateLite \<Rightarrow> updateLite h2)"

text \<open>
  Construction and initialization. \<open>Hackflight_new\<close> holds the default member
  initializers of the class (\<open>_safeToArm = false\<close>, \<open>_yawInitial = 0\<close>,
  \<open>_sensor_count = 0\<close>); the members without one (\<open>_state\<close>, \<open>_updater\<close>) and the
  two sensor objects are its parameters. The calls \<open>general_init\<close> and \<open>init\<close> make to
  set their collaborators up are not logged.
\<close>

definition Hackflight_new :: "state_t \<Rightarrow> Sensor \<Rightarrow> Sensor \<Rightarrow> updater_t \<Rightarrow> Hackflight" where
  "Hackflight_new st gyro quat u =
    \<lparr>state = st, safeToArm = False, yawInitial = 0, gyrometer = gyro, quaternion = quat,
     sensors = [], updater = u, calls = []\<rparr>"

definition zero_state :: state_t where
  "zero_state = \<lparr>armed = False, failsafe = False, rotation = (\<lambda>k. 0)\<rparr>"

definition general_init :: "Hackflight \<Rightarrow> Hackflight" where
  "general_init h =
    (let h1 = h\<lparr>sensors := []\<rparr>;
         h2 = h1\<lparr>state := zero_state\<rparr>
     in setFailsafe False h2)"

definition Hackflight_init :: "bool \<Rightarrow> Hackflight \<Rightarrow> Hackflight" where
  "Hackflight_init armed0 h =
    (let h1 = general_init h;
         h2 = setArmed armed0 h1;
         h3 = add_sensor (quaternion h2) h2;
         h4 = add_sensor (gyrometer h3) h3
     in h4\<lparr>updater := UpdateFull\<rparr>)"

definition Hackflight_init_lite :: "Hackflight \<Rightarrow> Hackflight" where
  "Hackflight_init_lite h = (general_init h)\<lparr>updater := UpdateLite\<rparr>"

subsection \<open>Runs of the controller\<close>

text \<open>
  A run is a list of calls of \<open>checkReceiver\<close>. Between two calls the sensors may
  rewrite the rotation, so each call comes with the receiver's answers and with the
  rotation the vehicle state holds when the call starts.
\<close>

type_synonym tick = "Receiver \<times> (axis \<Rightarrow> real)"

definition sensorsWrite :: "(axis \<Rightarrow> real) \<Rightarrow> Hackflight \<Rightarrow> Hackflight" where
  "sensorsWrite rot h = h\<lparr>state := (state h)\<lparr>rotation := rot\<rparr>\<rparr>"

definition checkReceiverAt :: "tick \<Rightarrow> Hackflight \<Rightarrow> Hackflight" where
  "checkReceiverAt t h = checkReceiver (fst t) (sensorsWrite (snd t) h)"

fun checkReceiverSeq :: "tick list \<Rightarrow> Hackflight \<Rightarrow> Hackflight" where
  "checkReceiverSeq [] h = h"
| "checkReceiverSeq (t # ts) h = checkReceiverSeq ts (checkReceiverAt t h)"

text \<open>The call of \<open>checkReceiver\<close> takes the state from disarmed to armed.\<close>

definition armTransition :: "Receiver \<Rightarrow> Hackflight \<Rightarrow> bool" where
  "armTransition rx h = (\<not> armed (state h) \<and> armed (state (checkReceiver rx h)))"

text \<open>
  The call of \<open>checkReceiver\<close> gets as far as reading the arm switch (it returns at
  neither of the two early exits) and reads it de-asserted.
\<close>

definition observesSwitchOff :: "Receiver \<Rightarrow> Hackflight \<Rightarrow> bool" where
  "observesSwitchOff rx h =
    (\<not> (lostSignal rx \<and> armed (state h))
     \<and> getDemands rx (rotation (state h) AXIS_YAW - yawInitial h)
     \<and> \<not> getAux1State rx)"

fun switchNeverObservedOff :: "tick list \<Rightarrow> Hackflight \<Rightarrow> bool" where
  "switchNeverObservedOff [] h = True"
| "switchNeverObservedOff (t # ts) h =
    (\<not> observesSwitchOff (fst t) (sensorsWrite (snd t) h)
     \<and> switchNeverObservedOff ts (checkReceiverAt t h))"

fun neverArms :: "tick list \<Rightarrow> Hackflight \<Rightarrow> bool" where
  "neverArms [] h = True"
| "neverArms (t # ts) h =
    (\<not> armTransition (fst t) (sensorsWrite (snd t) h)
     \<and> neverArms ts (checkReceiverAt t h))"

text \<open>The calls a tick adds to the log.\<close>

definition newCalls :: "Hackflight \<Rightarrow> Hackflight \<Rightarrow> call list" where
  "newCalls h h' = drop (length (calls h)) (calls h')"

text \<open>Some occurrence of \<open>a\<close> in the log comes before some occurrence of \<open>b\<close>.\<close>

fun precedes :: "call \<Rightarrow> call \<Rightarrow> call list \<Rightarrow> bool" where
  "precedes a b [] = False"
| "precedes a b (c # cs) = ((c = a \<and> b \<in> set cs) \<or> precedes a b cs)"

text \<open>The calls one sensor check adds to the log.\<close>

definition sensorCalls :: "real \<Rightarrow> Sensor \<Rightarrow> call list" where
  "sensorCalls time sensor =
    SensorReady (ident sensor)
      # (if ready sensor time then [SensorModifyState (ident sensor)] else [])"

section \<open>stabilizer.hpp: the PID stabilizer\<close>

text \<open>
  \<open>vehicle_state_t\<close> and \<open>demands_t\<close> are declared in datatypes.hpp, which is
  missing; the code reads \<open>state.pose.orientation[k].value\<close> and \<open>.deriv\<close> (the
  field \<open>value\<close> is \<open>val\<close> here) and the demands \<open>roll\<close>, \<open>pitch\<close>, \<open>yaw\<close>; the
  spec (3) lists \<open>throttle\<close> beside them.
\<close>

record kinematic =
  val :: real
  deriv :: real

record pose_t =
  orientation :: "axis \<Rightarrow> kinematic"

record vehicle_state_t =
  pose :: pose_t

record demands_t =
  roll :: real
  pitch :: real
  yaw :: real
  throttle :: real

text \<open>
  The members of class \<open>Stabilizer\<close>. \<open>lastGyro\<close>, \<open>delta1\<close> and \<open>delta2\<close> are
  arrays of two entries (roll and pitch); the code never indexes them with the yaw axis.
\<close>

record Stabilizer =
  levelP :: real
  gyroCyclicP :: real
  gyroCyclicI :: real
  gyroCyclicD :: real
  gyroYawP :: real
  gyroYawI :: real
  lastGyro :: "axis \<Rightarrow> real"
  delta1 :: "axis \<Rightarrow> real"
  delta2 :: "axis \<Rightarrow> real"
  errorGyroI :: "axis \<Rightarrow> real"
  bigGyroRate :: real
  maxArmingAngle :: real

definition gyroWindupMax :: real where
  "gyroWindupMax = 16"

definition bigGyroDegreesPerSecond :: real where
  "bigGyroDegreesPerSecond = 40"

text \<open>
  \<open>bigYawDemand = 0.1f\<close>: the single-precision number nearest to one tenth,
  \<open>13421773 / 2^27\<close>, a little above it. A yaw demand that is this very number does
  not exceed the threshold.
\<close>

definition bigYawDemand :: real where
  "bigYawDemand = 13421773 / 134217728"

definition maxArmingAngleDegrees :: real where
  "maxArmingAngleDegrees = 25"

definition degreesToRadians :: "real \<Rightarrow> real" where
  "degreesToRadians deg = M_PI * deg / 180"

definition computeITermGyro ::
  "real \<Rightarrow> real \<Rightarrow> real \<Rightarrow> (axis \<Rightarrow> real) \<Rightarrow> axis \<Rightarrow> Stabilizer \<Rightarrow> real \<times> Stabilizer" where
  "computeITermGyro rateP rateI rcCommand gyroRate ax s =
    (let error = rcCommand * rateP - gyroRate ax;
         s1 = s\<lparr>errorGyroI := (errorGyroI s)
                  (ax := Filter_constrainAbs (errorGyroI s ax + error) gyroWindupMax)\<rparr>;
         s2 = (if \<bar>gyroRate ax\<bar> > bigGyroRate s1
                  \<or> (ax = AXIS_YAW \<and> \<bar>rcCommand\<bar> > bigYawDemand)
               then s1\<lparr>errorGyroI := (errorGyroI s1)(ax := 0)\<rparr> else s1)
     in (errorGyroI s2 ax * rateI, s2))"

definition computePid ::
  "real \<Rightarrow> real \<Rightarrow> real \<Rightarrow> real \<Rightarrow> (axis \<Rightarrow> real) \<Rightarrow> axis \<Rightarrow> real" where
  "computePid rateP PTerm ITerm DTerm gyroRate ax =
    (let PTerm1 = PTerm - gyroRate ax * rateP
     in PTerm1 + ITerm - DTerm)"

definition computeCyclicPid ::
  "real \<Rightarrow> real \<Rightarrow> (axis \<Rightarrow> real) \<Rightarrow> (axis \<Rightarrow> real) \<Rightarrow> axis \<Rightarrow> Stabilizer \<Rightarrow> real \<times> Stabilizer" where
  "computeCyclicPid rcCommand prop eulerAngles gyroRate imuAxis s =
    (let (ITermGyro, s1) =
           computeITermGyro (gyroCyclicP s) (gyroCyclicI s) rcCommand gyroRate imuAxis s;
         PTermEuler = (rcCommand - eulerAngles imuAxis) * levelP s1;
         PTerm = Filter_complementary rcCommand PTermEuler prop;
         ITerm = ITermGyro * prop;
         delta = gyroRate imuAxis - lastGyro s1 imuAxis;
         s2 = s1\<lparr>lastGyro := (lastGyro s1)(imuAxis := gyroRate imuAxis)\<rparr>;
         deltaSum = delta1 s2 imuAxis + delta2 s2 imuAxis + delta;
         s3 = s2\<lparr>delta2 := (delta2 s2)(imuAxis := delta1 s2 imuAxis)\<rparr>;
         s4 = s3\<lparr>delta1 := (delta1 s3)(imuAxis := delta)\<rparr>;
         DTerm = deltaSum * gyroCyclicD s4
     in (computePid (gyroCyclicP s4) PTerm ITerm DTerm gyroRate imuAxis, s4))"

definition constrainCyclicDemand :: "Stabilizer \<Rightarrow> real \<Rightarrow> real \<Rightarrow> real" where
  "constrainCyclicDemand s eulerAngle demand =
    demand * (1 - \<bar>eulerAngle\<bar> / maxArmingAngle s)"

definition resetIntegral :: "Stabilizer \<Rightarrow> Stabilizer" where
  "resetIntegral s =
    s\<lparr>errorGyroI := (errorGyroI s)(AXIS_ROLL := 0, AXIS_PITCH := 0, AXIS_YAW := 0)\<rparr>"

text \<open>\<open>Stabilizer::init\<close>; its loop over the two cyclic axes is written out.\<close>

definition Stabilizer_init :: "Stabilizer \<Rightarrow> Stabilizer" where
  "Stabilizer_init s =
    (let s1 = s\<lparr>lastGyro := (lastGyro s)(AXIS_ROLL := 0, AXIS_PITCH := 0),
                delta1 := (delta1 s)(AXIS_ROLL := 0, AXIS_PITCH := 0),
                delta2 := (delta2 s)(AXIS_ROLL := 0, AXIS_PITCH := 0)\<rparr>;
         s2 = s1\<lparr>bigGyroRate := degreesToRadians bigGyroDegreesPerSecond\<rparr>;
         s3 = s2\<lparr>maxArmingAngle := degreesToRadians maxArmingAngleDegrees\<rparr>
     in resetIntegral s3)"

text \<open>
  \<open>Stabilizer::updateDemands\<close>. The demands are passed by reference and rewritten
  in place; the model returns them with the stabilizer.
\<close>

definition updateDemands ::
  "vehicle_state_t \<Rightarrow> demands_t \<Rightarrow> Stabilizer \<Rightarrow> demands_t \<times> Stabilizer" where
  "updateDemands vstate demands s =
    (let eulerAngles = (\<lambda>k. val (orientation (pose vstate) k));
         gyroRate = (\<lambda>k. deriv (orientation (pose vstate) k));
         prop = Filter_max \<bar>roll demands\<bar> \<bar>pitch demands\<bar> / 0.5;
         (r, s1) = computeCyclicPid (roll demands) prop eulerAngles gyroRate AXIS_ROLL s;
         d1 = demands\<lparr>roll := r\<rparr>;
         (p, s2) = computeCyclicPid (pitch d1) prop eulerAngles gyroRate AXIS_PITCH s1;
         d2 = d1\<lparr>pitch := p\<rparr>;
         (ITermGyroYaw, s3) =
           computeITermGyro (gyroYawP s2) (gyroYawI s2) (yaw d2) gyroRate AXIS_YAW s2;
         d3 = d2\<lparr>yaw := computePid (gyroYawP s3) (yaw d2) ITermGyroYaw 0 gyroRate AXIS_YAW\<rparr>;
         d4 = d3\<lparr>yaw := Filter_constrainAbs (yaw d3) (0.1 + \<bar>yaw d3\<bar>)\<rparr>
     in (d4, s3))"

text \<open>A sequence of calls of \<open>updateDemands\<close>, each with its own vehicle state and demands.\<close>

fun updateDemandsSeq :: "(vehicle_state_t \<times> demands_t) list \<Rightarrow> Stabilizer \<Rightarrow> Stabilizer" where
  "updateDemandsSeq [] s = s"
| "updateDemandsSeq (x # xs) s = updateDemandsSeq xs (snd (updateDemands (fst x) (snd x) s))"

section \<open>Concrete inputs\<close>

text \<open>
  A craft tilted by 0.1 rad in roll and -0.2 rad in pitch (inside the arming envelope of
  25 degrees, about 0.436 rad) and heading 0.3 rad; sensors that are always ready and
  leave the state as it is; and the receiver's answers for four situations, all with
  the throttle down: arm switch off, arm gesture, arm gesture without new receiver
  data, and arm gesture with the signal lost.
\<close>

definition tiltedRotation :: "axis \<Rightarrow> real" where
  "tiltedRotation k = (case k of AXIS_ROLL \<Rightarrow> 0.1 | AXIS_PITCH \<Rightarrow> - 0.2 | AXIS_YAW \<Rightarrow> 0.3)"

definition idleSensor :: "sensor_id \<Rightarrow> Sensor" where
  "idleSensor i = \<lparr>ident = i, ready = (\<lambda>t. True), modifyState = (\<lambda>st t. st)\<rparr>"

definition bootedCraft :: Hackflight where
  "bootedCraft =
     Hackflight_init False
       (Hackflight_new zero_state (idleSensor Gyrometer) (idleSensor Quaternion) UpdateFull)"

definition switchOffRx :: Receiver where
  "switchOffRx = \<lparr>lostSignal = False, getDemands = (\<lambda>y. True), getAux1State = False,
                  throttleIsDown = True\<rparr>"

definition armGestureRx :: Receiver where
  "armGestureRx = \<lparr>lostSignal = False, getDemands = (\<lambda>y. True), getAux1State = True,
                   throttleIsDown = True\<rparr>"

definition noDataRx :: Receiver where
  "noDataRx = \<lparr>lostSignal = False, getDemands = (\<lambda>y. False), getAux1State = True,
               throttleIsDown = True\<rparr>"

definition lostSignalRx :: Receiver where
  "lostSignalRx = \<lparr>lostSignal = True, getDemands = (\<lambda>y. True), getAux1State = True,
                   throttleIsDown = True\<rparr>"

text \<open>The craft after the switch was seen off once, and after the arm gesture that follows.\<close>

definition latchedCraft :: Hackflight where
  "latchedCraft = checkReceiverAt (switchOffRx, tiltedRotation) bootedCraft"

definition armedCraft :: Hackflight where
  "armedCraft = checkReceiverAt (armGestureRx, tiltedRotation) latchedCraft"

text \<open>Runs: the switch held on from boot; then seen off; then the arm gesture again.\<close>

definition switchHeldTicks :: "tick list" where
  "switchHeldTicks = [(armGestureRx, tiltedRotation), (noDataRx, tiltedRotation)]"

definition switchOffTick :: tick where
  "switchOffTick = (switchOffRx, tiltedRotation)"

definition armGestureTicks :: "tick list" where
  "armGestureTicks = [(armGestureRx, tiltedRotation)]"

definition lostSignalTick :: tick where
  "lostSignalTick = (lostSignalRx, tiltedRotation)"

definition recoveryTicks :: "tick list" where
  "recoveryTicks = [(switchOffRx, tiltedRotation), (armGestureRx, tiltedRotation)]"

text \<open>
  A stabilizer with the gains of the repository's example sketches, initialized; vehicle
  states built from a vector of Euler angles and a vector of angular rates; centred
  sticks.
\<close>

definition vehicleState :: "(axis \<Rightarrow> real) \<Rightarrow> (axis \<Rightarrow> real) \<Rightarrow> vehicle_state_t" where
  "vehicleState angles rates =
     \<lparr>pose = \<lparr>orientation = (\<lambda>k. \<lparr>val = angles k, deriv = rates k\<rparr>)\<rparr>\<rparr>"

definition tunedGains :: Stabilizer where
  "tunedGains =
     \<lparr>levelP = 0.2, gyroCyclicP = 0.225, gyroCyclicI = 0.001875, gyroCyclicD = 0.375,
      gyroYawP = 1.0625, gyroYawI = 0.005625,
      lastGyro = (\<lambda>k. 0), delta1 = (\<lambda>k. 0), delta2 = (\<lambda>k. 0), errorGyroI = (\<lambda>k. 0),
      bigGyroRate = 0, maxArmingAngle = 0\<rparr>"

definition tunedStabilizer :: Stabilizer where
  "tunedStabilizer = Stabilizer_init tunedGains"

definition woundUpStabilizer :: Stabilizer where
  "woundUpStabilizer = tunedStabilizer\<lparr>errorGyroI := (\<lambda>k. 5)\<rparr>"

definition zeroVector :: "axis \<Rightarrow> real" where
  "zeroVector k = 0"

definition yawSpin :: "axis \<Rightarrow> real" where
  "yawSpin k = (case k of AXIS_ROLL \<Rightarrow> 0 | AXIS_PITCH \<Rightarrow> 0 | AXIS_YAW \<Rightarrow> 1)"

definition rollTilt :: "axis \<Rightarrow> real" where
  "rollTilt k = (case k of AXIS_ROLL \<Rightarrow> 0.1 | AXIS_PITCH \<Rightarrow> 0 | AXIS_YAW \<Rightarrow> 0)"

definition zeroDemands :: demands_t where
  "zeroDemands = \<lparr>roll = 0, pitch = 0, yaw = 0, throttle = 0\<rparr>"

text \<open>The yaw stick moved to 0.2, and held at the threshold \<open>0.1f\<close> itself.\<close>

definition yawStickDemands :: demands_t where
  "yawStickDemands = \<lparr>roll = 0, pitch = 0, yaw = 0.2, throttle = 0\<rparr>"

definition yawThresholdDemands :: demands_t where
  "yawThresholdDemands = \<lparr>roll = 0, pitch = 0, yaw = bigYawDemand, throttle = 0\<rparr>"

text \<open>
  A stabilizer with a derivative history: a roll rate of 0.5 rad/s three calls ago, none
  since.
\<close>

definition rollKick :: "axis \<Rightarrow> real" where
  "rollKick k = (case k of AXIS_ROLL \<Rightarrow> 0.5 | AXIS_PITCH \<Rightarrow> 0 | AXIS_YAW \<Rightarrow> 0)"

definition kickedStabilizer :: Stabilizer where
  "kickedStabilizer =
     updateDemandsSeq
       [(vehicleState zeroVector rollKick, zeroDemands),
        (vehicleState zeroVector zeroVector, zeroDemands),
        (vehicleState zeroVector zeroVector, zeroDemands)]
       tunedStabilizer"

section \<open>Properties of the arming and safety controller\<close>

lemmas checkReceiver_defs =
  checkReceiver_def logCall_def setArmed_def setFailsafe_def safeAngle_def

lemmas boot_defs =
  bootedCraft_def Hackflight_init_def Hackflight_new_def general_init_def zero_state_def
  add_sensor_def idleSensor_def setArmed_def setFailsafe_def

lemma bootedCraft_eq:
  "bootedCraft =
    \<lparr>state = \<lparr>armed = False, failsafe = False, rotation = (\<lambda>k. 0)\<rparr>,
     safeToArm = False, yawInitial = 0,
     gyrometer = idleSensor Gyrometer, quaternion = idleSensor Quaternion,
     sensors = [idleSensor Quaternion, idleSensor Gyrometer], updater = UpdateFull,
     calls = []\<rparr>"
  by (simp add: boot_defs Let_def)

lemma latchedCraft_eq:
  "latchedCraft =
    \<lparr>state = \<lparr>armed = False, failsafe = False, rotation = tiltedRotation\<rparr>,
     safeToArm = True, yawInitial = 0,
     gyrometer = idleSensor Gyrometer, quaternion = idleSensor Quaternion,
     sensors = [idleSensor Quaternion, idleSensor Gyrometer], updater = UpdateFull,
     calls = [ReceiverGetDemands 0.3, ShowArmedStatus False]\<rparr>"
  by (simp add: latchedCraft_def checkReceiverAt_def sensorsWrite_def checkReceiver_defs
      bootedCraft_eq switchOffRx_def tiltedRotation_def Let_def)

lemma armedCraft_eq:
  "armedCraft =
    \<lparr>state = \<lparr>armed = True, failsafe = False, rotation = tiltedRotation\<rparr>,
     safeToArm = True, yawInitial = 0.3,
     gyrometer = idleSensor Gyrometer, quaternion = idleSensor Quaternion,
     sensors = [idleSensor Quaternion, idleSensor Gyrometer], updater = UpdateFull,
     calls = [ReceiverGetDemands 0.3, ShowArmedStatus False, ReceiverGetDemands 0.3,
              ActuatorCut, ShowArmedStatus True]\<rparr>"
  by (simp add: armedCraft_def latchedCraft_eq checkReceiverAt_def sensorsWrite_def
      checkReceiver_defs armGestureRx_def tiltedRotation_def Let_def Filter_deg2rad_def
      M_PI_def MAX_ARMING_ANGLE_DEGREES_def)

subsection \<open>The arm transition\<close>

text \<open>
  Claim C1, as the code has it. A call of \<open>checkReceiver\<close> takes the state from disarmed
  to armed if and only if the receiver delivers new data (\<open>getDemands\<close> answers true, so
  the call does not return at its second early exit) and the safe-to-arm latch is set,
  the state is not armed, the throttle is down, the arm switch is asserted, the failsafe
  flag is false and roll and pitch are both below 25 degrees (in radians) in absolute
  value. On the transition \<open>yawInitial\<close> takes the current yaw angle.
\<close>

theorem arm_transition_iff:
  "(armTransition rx h \<longleftrightarrow>
      getDemands rx (rotation (state h) AXIS_YAW - yawInitial h)
      \<and> safeToArm h \<and> \<not> armed (state h) \<and> throttleIsDown rx \<and> getAux1State rx
      \<and> \<not> failsafe (state h)
      \<and> \<bar>rotation (state h) AXIS_ROLL\<bar> < Filter_deg2rad 25
      \<and> \<bar>rotation (state h) AXIS_PITCH\<bar> < Filter_deg2rad 25)
   \<and> (armTransition rx h \<longrightarrow>
        yawInitial (checkReceiver rx h) = rotation (state h) AXIS_YAW)"
  by (auto simp add: armTransition_def checkReceiver_defs Let_def MAX_ARMING_ANGLE_DEGREES_def)

theorem arm_transition_iff_witness:
  "armTransition armGestureRx latchedCraft
   \<and> yawInitial (checkReceiver armGestureRx latchedCraft) = 0.3"
  using arm_transition_iff [of armGestureRx latchedCraft]
  by (simp add: latchedCraft_eq armGestureRx_def tiltedRotation_def Filter_deg2rad_def M_PI_def)

text \<open>
  The claim as it is written leaves the receiver's data out of its conditions. With no
  new data the call returns before the arming statement: every condition the claim
  lists holds here, and the craft stays disarmed.
\<close>

theorem arm_without_new_data_counterexample:
  "safeToArm latchedCraft \<and> \<not> armed (state latchedCraft)
   \<and> throttleIsDown noDataRx \<and> getAux1State noDataRx
   \<and> \<not> failsafe (state latchedCraft)
   \<and> \<bar>rotation (state latchedCraft) AXIS_ROLL\<bar> < Filter_deg2rad 25
   \<and> \<bar>rotation (state latchedCraft) AXIS_PITCH\<bar> < Filter_deg2rad 25
   \<and> \<not> armTransition noDataRx latchedCraft"
  by (simp add: armTransition_def checkReceiver_defs latchedCraft_eq noDataRx_def
      tiltedRotation_def Filter_deg2rad_def M_PI_def Let_def)

subsection \<open>Signal loss\<close>

text \<open>
  Claim C2. When the receiver reports a lost signal and the state is armed,
  \<open>checkReceiver\<close> calls the actuator's \<open>cut()\<close> first, sets \<open>armed\<close> to false and
  \<open>failsafe\<close> to true, shows the disarmed status and returns: nothing else of the
  controller changes, the receiver is not asked for demands, and no arming or disarming
  statement runs, whatever the switch and the throttle say.
\<close>

theorem signal_loss_preempts:
  "lostSignal rx \<Longrightarrow> armed (state h) \<Longrightarrow>
   checkReceiver rx h =
     h\<lparr>state := (state h)\<lparr>armed := False, failsafe := True\<rparr>,
       calls := calls h @ [ActuatorCut, ShowArmedStatus False]\<rparr>"
  by (simp add: checkReceiver_defs)

theorem signal_loss_preempts_witness:
  "lostSignal lostSignalRx \<and> armed (state armedCraft)
   \<and> getAux1State lostSignalRx \<and> throttleIsDown lostSignalRx
   \<and> checkReceiver lostSignalRx armedCraft =
       armedCraft\<lparr>state := (state armedCraft)\<lparr>armed := False, failsafe := True\<rparr>,
         calls := calls armedCraft @ [ActuatorCut, ShowArmedStatus False]\<rparr>"
proof -
  have l: "lostSignal lostSignalRx"
    by (simp add: lostSignalRx_def)
  have a: "armed (state armedCraft)"
    by (simp add: armedCraft_eq)
  from l a signal_loss_preempts [OF l a] show ?thesis
    by (simp add: lostSignalRx_def)
qed

subsection \<open>The safe-to-arm latch\<close>

lemma sensorsWrite_fields [simp]:
  "safeToArm (sensorsWrite rot h) = safeToArm h"
  "armed (state (sensorsWrite rot h)) = armed (state h)"
  "failsafe (state (sensorsWrite rot h)) = failsafe (state h)"
  by (simp_all add: sensorsWrite_def)

lemma latch_kept: "safeToArm h \<Longrightarrow> safeToArm (checkReceiver rx h)"
  by (simp add: checkReceiver_defs Let_def)

lemma latch_kept_seq: "safeToArm h \<Longrightarrow> safeToArm (checkReceiverSeq ts h)"
  by (induction ts arbitrary: h) (simp_all add: checkReceiverAt_def latch_kept)

lemma latch_set: "observesSwitchOff rx h \<Longrightarrow> safeToArm (checkReceiver rx h)"
  by (auto simp add: observesSwitchOff_def checkReceiver_defs Let_def)

lemma unlatched_stays:
  "\<not> safeToArm h \<Longrightarrow> \<not> observesSwitchOff rx h \<Longrightarrow> \<not> safeToArm (checkReceiver rx h)"
  by (auto simp add: observesSwitchOff_def checkReceiver_defs Let_def)

lemma unlatched_no_arm: "\<not> safeToArm h \<Longrightarrow> \<not> armTransition rx h"
  by (auto simp add: armTransition_def checkReceiver_defs Let_def)

lemma unlatched_seq:
  "\<not> safeToArm h \<Longrightarrow> switchNeverObservedOff ts h \<Longrightarrow>
   \<not> safeToArm (checkReceiverSeq ts h) \<and> neverArms ts h"
proof (induction ts arbitrary: h)
  case Nil
  then show ?case by simp
next
  case (Cons t ts)
  from Cons.prems have off: "\<not> observesSwitchOff (fst t) (sensorsWrite (snd t) h)"
    and rest: "switchNeverObservedOff ts (checkReceiverAt t h)"
    by simp_all
  from Cons.prems(1) have un: "\<not> safeToArm (sensorsWrite (snd t) h)"
    by simp
  have "\<not> safeToArm (checkReceiverAt t h)"
    unfolding checkReceiverAt_def using un off by (rule unlatched_stays)
  then have "\<not> safeToArm (checkReceiverSeq ts (checkReceiverAt t h))
      \<and> neverArms ts (checkReceiverAt t h)"
    using rest by (rule Cons.IH)
  moreover have "\<not> armTransition (fst t) (sensorsWrite (snd t) h)"
    using un by (rule unlatched_no_arm)
  ultimately show ?case by simp
qed

lemma checkReceiverSeq_append:
  "checkReceiverSeq (ts @ us) h = checkReceiverSeq us (checkReceiverSeq ts h)"
  by (induction ts arbitrary: h) simp_all

lemma init_unlatched: "\<not> safeToArm (Hackflight_init armed0 (Hackflight_new st gyro quat u))"
  by (simp add: Hackflight_init_def Hackflight_new_def general_init_def add_sensor_def
      setArmed_def setFailsafe_def Let_def)

text \<open>
  Claim C6. From the initialized controller, as long as no call of \<open>checkReceiver\<close> has
  read the arm switch de-asserted (the run \<open>pre\<close>), the latch stays false and no call
  takes the state from disarmed to armed. The first call that reads the switch
  de-asserted (\<open>t\<close>) sets the latch, and it is still set after any calls that follow
  (\<open>post\<close>).
\<close>

theorem safe_to_arm_latch:
  "(switchNeverObservedOff pre (Hackflight_init armed0 (Hackflight_new st gyro quat u)) \<longrightarrow>
      \<not> safeToArm (checkReceiverSeq pre (Hackflight_init armed0 (Hackflight_new st gyro quat u)))
      \<and> neverArms pre (Hackflight_init armed0 (Hackflight_new st gyro quat u)))
   \<and> (switchNeverObservedOff pre (Hackflight_init armed0 (Hackflight_new st gyro quat u))
      \<and> observesSwitchOff (fst t) (sensorsWrite (snd t)
           (checkReceiverSeq pre (Hackflight_init armed0 (Hackflight_new st gyro quat u)))) \<longrightarrow>
      safeToArm (checkReceiverSeq (pre @ t # post)
           (Hackflight_init armed0 (Hackflight_new st gyro quat u))))"
proof -
  define h0 where "h0 = Hackflight_init armed0 (Hackflight_new st gyro quat u)"
  have un: "\<not> safeToArm h0"
    unfolding h0_def by (rule init_unlatched)
  have first: "\<not> safeToArm (checkReceiverSeq pre h0) \<and> neverArms pre h0"
    if "switchNeverObservedOff pre h0"
    using un that by (rule unlatched_seq)
  have second: "safeToArm (checkReceiverSeq (pre @ t # post) h0)"
    if "observesSwitchOff (fst t) (sensorsWrite (snd t) (checkReceiverSeq pre h0))"
  proof -
    from that have "safeToArm (checkReceiverAt t (checkReceiverSeq pre h0))"
      unfolding checkReceiverAt_def by (rule latch_set)
    then have "safeToArm (checkReceiverSeq post (checkReceiverAt t (checkReceiverSeq pre h0)))"
      by (rule latch_kept_seq)
    then show ?thesis
      by (simp add: checkReceiverSeq_append)
  qed
  from first second show ?thesis
    unfolding h0_def by blast
qed

lemma switchHeld_run:
  "checkReceiverSeq switchHeldTicks bootedCraft =
     bootedCraft\<lparr>state := (state bootedCraft)\<lparr>rotation := tiltedRotation\<rparr>,
       calls := [ReceiverGetDemands 0.3, ShowArmedStatus False, ReceiverGetDemands 0.3]\<rparr>"
  by (simp add: switchHeldTicks_def checkReceiverAt_def sensorsWrite_def checkReceiver_defs
      bootedCraft_eq armGestureRx_def noDataRx_def tiltedRotation_def Let_def)

theorem safe_to_arm_latch_witness:
  "switchNeverObservedOff switchHeldTicks bootedCraft
   \<and> \<not> safeToArm (checkReceiverSeq switchHeldTicks bootedCraft)
   \<and> neverArms switchHeldTicks bootedCraft
   \<and> observesSwitchOff (fst switchOffTick)
        (sensorsWrite (snd switchOffTick) (checkReceiverSeq switchHeldTicks bootedCraft))
   \<and> safeToArm (checkReceiverSeq (switchHeldTicks @ switchOffTick # armGestureTicks) bootedCraft)"
proof -
  have held: "switchNeverObservedOff switchHeldTicks bootedCraft"
    by (simp add: switchHeldTicks_def observesSwitchOff_def checkReceiverAt_def
        sensorsWrite_def checkReceiver_defs bootedCraft_eq armGestureRx_def noDataRx_def
        tiltedRotation_def Let_def)
  have off: "observesSwitchOff (fst switchOffTick)
      (sensorsWrite (snd switchOffTick) (checkReceiverSeq switchHeldTicks bootedCraft))"
    by (simp add: switchHeld_run switchOffTick_def observesSwitchOff_def sensorsWrite_def
        switchOffRx_def bootedCraft_eq)
  from held off
    safe_to_arm_latch [of switchHeldTicks False zero_state "idleSensor Gyrometer"
      "idleSensor Quaternion" UpdateFull switchOffTick armGestureTicks,
      folded bootedCraft_def]
  show ?thesis by simp
qed

subsection \<open>Failsafe\<close>

lemma failsafe_kept: "failsafe (state h) \<Longrightarrow> failsafe (state (checkReceiver rx h))"
  by (simp add: checkReceiver_defs Let_def)

lemma failsafe_no_arm: "failsafe (state h) \<Longrightarrow> \<not> armTransition rx h"
  by (auto simp add: armTransition_def checkReceiver_defs Let_def)

lemma failsafe_disarmed_kept:
  "failsafe (state h) \<Longrightarrow> \<not> armed (state h) \<Longrightarrow> \<not> armed (state (checkReceiver rx h))"
  using failsafe_no_arm [of h rx] by (simp add: armTransition_def)

lemma failsafe_set_disarms:
  "\<not> failsafe (state h) \<Longrightarrow> failsafe (state (checkReceiver rx h)) \<Longrightarrow>
   \<not> armed (state (checkReceiver rx h))"
  by (auto simp add: checkReceiver_defs Let_def split: if_splits)

lemma failsafe_seq:
  "failsafe (state h) \<Longrightarrow>
   failsafe (state (checkReceiverSeq ts h)) \<and> neverArms ts h
   \<and> (\<not> armed (state h) \<longrightarrow> \<not> armed (state (checkReceiverSeq ts h)))"
proof (induction ts arbitrary: h)
  case Nil
  then show ?case by simp
next
  case (Cons t ts)
  let ?h = "sensorsWrite (snd t) h"
  from Cons.prems have fs: "failsafe (state ?h)" by simp
  then have fs': "failsafe (state (checkReceiverAt t h))"
    unfolding checkReceiverAt_def by (rule failsafe_kept)
  note ih = Cons.IH [OF fs']
  have no: "\<not> armTransition (fst t) ?h"
    using fs by (rule failsafe_no_arm)
  have "\<not> armed (state (checkReceiverAt t h))" if "\<not> armed (state h)"
    unfolding checkReceiverAt_def using fs that by (intro failsafe_disarmed_kept) simp_all
  with ih no show ?case by simp
qed

text \<open>
  Claim C10. In a state whose failsafe flag is true, after any run of \<open>checkReceiver\<close>
  calls the flag is still true and no call of the run took the state from disarmed to
  armed. The call that turns the flag on leaves the state disarmed, so from that call on
  the flag stays true and the state stays disarmed, whatever the receiver reports.
\<close>

theorem failsafe_is_permanent:
  "(failsafe (state h) \<longrightarrow>
      failsafe (state (checkReceiverSeq ts h)) \<and> neverArms ts h)
   \<and> (\<not> failsafe (state h) \<and> failsafe (state (checkReceiverAt t h)) \<longrightarrow>
      failsafe (state (checkReceiverSeq ts (checkReceiverAt t h)))
      \<and> \<not> armed (state (checkReceiverSeq ts (checkReceiverAt t h))))"
proof -
  have second: "failsafe (state (checkReceiverSeq ts (checkReceiverAt t h)))
      \<and> \<not> armed (state (checkReceiverSeq ts (checkReceiverAt t h)))"
    if a: "\<not> failsafe (state h)" and b: "failsafe (state (checkReceiverAt t h))"
  proof -
    from a have "\<not> failsafe (state (sensorsWrite (snd t) h))" by simp
    then have "\<not> armed (state (checkReceiverAt t h))"
      using b unfolding checkReceiverAt_def by (rule failsafe_set_disarms)
    with failsafe_seq [OF b, of ts] show ?thesis by simp
  qed
  from failsafe_seq [of h ts] second show ?thesis by blast
qed

lemma lostSignal_run:
  "checkReceiverAt lostSignalTick armedCraft =
     armedCraft\<lparr>state := (state armedCraft)\<lparr>armed := False, failsafe := True\<rparr>,
       calls := calls armedCraft @ [ActuatorCut, ShowArmedStatus False]\<rparr>"
  by (simp add: lostSignalTick_def checkReceiverAt_def sensorsWrite_def checkReceiver_defs
      armedCraft_eq lostSignalRx_def)

theorem failsafe_is_permanent_witness:
  "\<not> failsafe (state armedCraft)
   \<and> failsafe (state (checkReceiverAt lostSignalTick armedCraft))
   \<and> failsafe (state (checkReceiverSeq recoveryTicks (checkReceiverAt lostSignalTick armedCraft)))
   \<and> \<not> armed (state (checkReceiverSeq recoveryTicks (checkReceiverAt lostSignalTick armedCraft)))
   \<and> neverArms recoveryTicks (checkReceiverAt lostSignalTick armedCraft)"
proof -
  have a: "\<not> failsafe (state armedCraft)"
    by (simp add: armedCraft_eq)
  have b: "failsafe (state (checkReceiverAt lostSignalTick armedCraft))"
    by (simp add: lostSignal_run)
  from a b
    failsafe_is_permanent [of armedCraft recoveryTicks lostSignalTick]
    failsafe_is_permanent [of "checkReceiverAt lostSignalTick armedCraft" recoveryTicks
      lostSignalTick]
  show ?thesis by simp
qed

section \<open>Properties of the control tick\<close>

lemma checkSensor_calls: "calls (checkSensor time sensor h) = calls h @ sensorCalls time sensor"
  by (simp add: checkSensor_def sensorCalls_def logCall_def Let_def)

lemma checkSensor_fields [simp]:
  "sensors (checkSensor time sensor h) = sensors h"
  "gyrometer (checkSensor time sensor h) = gyrometer h"
  "quaternion (checkSensor time sensor h) = quaternion h"
  by (simp_all add: checkSensor_def logCall_def Let_def)

lemma checkSensorList_calls:
  "calls (checkSensorList time ss h) = calls h @ concat (map (sensorCalls time) ss)"
  by (induction ss arbitrary: h) (simp_all add: checkSensor_calls)

lemma updateFull_calls:
  "calls (updateFull time h) =
     calls h @ sensorCalls time (gyrometer h) @ sensorCalls time (quaternion h)
       @ concat (map (sensorCalls time) (sensors h)) @ [SerialTaskUpdate]"
  by (simp add: updateFull_def checkGyrometer_def checkQuaternion_def
      checkOptionalSensors_def checkSensorList_calls checkSensor_calls logCall_def Let_def)

lemma updateLite_calls:
  "calls (updateLite h) =
     calls h @ (if \<not> armed (state h) then [ProxySendDisarmed] else []) @ [SerialTaskUpdate]"
  by (simp add: updateLite_def logCall_def Let_def)

lemma checkReceiver_fields [simp]:
  "sensors (checkReceiver rx h) = sensors h"
  "gyrometer (checkReceiver rx h) = gyrometer h"
  "quaternion (checkReceiver rx h) = quaternion h"
  "updater (checkReceiver rx h) = updater h"
  "rotation (state (checkReceiver rx h)) = rotation (state h)"
  by (simp_all add: checkReceiver_defs Let_def)

lemma checkReceiver_calls:
  "calls (checkReceiver rx h) = calls h @ newCalls h (checkReceiver rx h)"
  by (simp add: newCalls_def checkReceiver_defs Let_def)

lemma newCalls_append: "calls h' = calls h @ cs \<Longrightarrow> newCalls h h' = cs"
  by (simp add: newCalls_def)

lemma update_full_calls:
  assumes "updater h = UpdateFull"
  shows "newCalls h (update rx time h) =
     newCalls h (checkReceiver rx h) @ [PidTaskUpdate]
       @ sensorCalls time (gyrometer h) @ sensorCalls time (quaternion h)
       @ concat (map (sensorCalls time) (sensors h)) @ [SerialTaskUpdate]"
proof -
  let ?h2 = "logCall PidTaskUpdate (checkReceiver rx h)"
  have u: "update rx time h = updateFull time ?h2"
    using assms by (simp add: update_def logCall_def Let_def)
  have f: "gyrometer ?h2 = gyrometer h" "quaternion ?h2 = quaternion h" "sensors ?h2 = sensors h"
    by (simp_all add: logCall_def)
  have c: "calls ?h2 = calls h @ newCalls h (checkReceiver rx h) @ [PidTaskUpdate]"
    using checkReceiver_calls [of rx h] by (simp add: logCall_def)
  show ?thesis
    by (rule newCalls_append) (simp add: u updateFull_calls f c)
qed

lemma update_lite_calls:
  assumes "updater h = UpdateLite"
  shows "newCalls h (update rx time h) =
     newCalls h (checkReceiver rx h) @ [PidTaskUpdate]
       @ (if \<not> armed (state (checkReceiver rx h)) then [ProxySendDisarmed] else [])
       @ [SerialTaskUpdate]"
proof -
  let ?h2 = "logCall PidTaskUpdate (checkReceiver rx h)"
  have u: "update rx time h = updateLite ?h2"
    using assms by (simp add: update_def logCall_def Let_def)
  have c: "calls ?h2 = calls h @ newCalls h (checkReceiver rx h) @ [PidTaskUpdate]"
    using checkReceiver_calls [of rx h] by (simp add: logCall_def)
  have a: "armed (state ?h2) = armed (state (checkReceiver rx h))"
    by (simp add: logCall_def)
  show ?thesis
    by (rule newCalls_append) (simp add: u updateLite_calls c a)
qed

lemma sensorCalls_no_cut: "ActuatorCut \<notin> set (sensorCalls time sensor)"
  by (simp add: sensorCalls_def)

lemma update_cut_iff:
  "ActuatorCut \<in> set (newCalls h (update rx time h)) \<longleftrightarrow>
   ActuatorCut \<in> set (newCalls h (checkReceiver rx h))"
proof (cases "updater h")
  case UpdateFull
  then show ?thesis
    by (simp add: update_full_calls sensorCalls_no_cut)
next
  case UpdateLite
  then show ?thesis
    by (simp add: update_lite_calls)
qed

lemma checkReceiver_cut_iff:
  "ActuatorCut \<in> set (newCalls h (checkReceiver rx h)) \<longleftrightarrow>
     (lostSignal rx \<and> armed (state h))
     \<or> (getDemands rx (rotation (state h) AXIS_YAW - yawInitial h)
        \<and> armed (state (checkReceiver rx h)) \<and> throttleIsDown rx)"
  by (auto simp add: newCalls_def checkReceiver_defs Let_def)

lemma checkReceiver_stays_armed:
  "armed (state h) \<Longrightarrow>
   armed (state (checkReceiver rx h)) \<longleftrightarrow>
     \<not> lostSignal rx
     \<and> (getDemands rx (rotation (state h) AXIS_YAW - yawInitial h) \<longrightarrow> getAux1State rx)"
  by (auto simp add: checkReceiver_defs Let_def)

subsection \<open>The order of the stages\<close>

text \<open>
  Claim C5, as the code has it. A tick of the full variant makes its calls in this
  order: those of \<open>checkReceiver\<close>, then the PID task's \<open>update()\<close>, then the gyrometer's
  check, the quaternion's check, the checks of the registered sensors in insertion
  order, and last the serial task's \<open>update()\<close>. The PID stage runs before the sensor
  reads of its tick: the rotation it finds in the vehicle state is the one the tick
  started with.
\<close>

theorem update_full_order:
  "updater h = UpdateFull \<Longrightarrow>
   newCalls h (update rx time h) =
     newCalls h (checkReceiver rx h) @ [PidTaskUpdate]
       @ sensorCalls time (gyrometer h) @ sensorCalls time (quaternion h)
       @ concat (map (sensorCalls time) (sensors h)) @ [SerialTaskUpdate]
   \<and> rotation (state (checkReceiver rx h)) = rotation (state h)"
  by (simp add: update_full_calls)

theorem update_full_order_witness:
  "updater bootedCraft = UpdateFull
   \<and> newCalls bootedCraft (update armGestureRx 0 bootedCraft) =
       [ReceiverGetDemands 0, ShowArmedStatus False, PidTaskUpdate,
        SensorReady Gyrometer, SensorModifyState Gyrometer,
        SensorReady Quaternion, SensorModifyState Quaternion,
        SensorReady Quaternion, SensorModifyState Quaternion,
        SensorReady Gyrometer, SensorModifyState Gyrometer,
        SerialTaskUpdate]"
proof -
  have u: "updater bootedCraft = UpdateFull"
    by (simp add: bootedCraft_eq)
  have r: "newCalls bootedCraft (checkReceiver armGestureRx bootedCraft) =
      [ReceiverGetDemands 0, ShowArmedStatus False]"
    by (simp add: newCalls_def checkReceiver_defs bootedCraft_eq armGestureRx_def Let_def)
  have f: "gyrometer bootedCraft = idleSensor Gyrometer"
    "quaternion bootedCraft = idleSensor Quaternion"
    "sensors bootedCraft = [idleSensor Quaternion, idleSensor Gyrometer]"
    by (simp_all add: bootedCraft_eq)
  from u update_full_order [OF u, of armGestureRx 0] show ?thesis
    by (simp add: r f sensorCalls_def idleSensor_def)
qed

text \<open>
  The claim as it is written puts the sensor reads before the PID stage. In the tick
  below the PID task is updated before the gyrometer and the quaternion are read, and no
  sensor call comes before it.
\<close>

theorem sensors_before_pid_counterexample:
  "updater bootedCraft = UpdateFull
   \<and> precedes PidTaskUpdate (SensorReady Gyrometer) (calls (update armGestureRx 0 bootedCraft))
   \<and> precedes PidTaskUpdate (SensorReady Quaternion) (calls (update armGestureRx 0 bootedCraft))
   \<and> \<not> precedes (SensorReady Gyrometer) PidTaskUpdate (calls (update armGestureRx 0 bootedCraft))
   \<and> \<not> precedes (SensorReady Quaternion) PidTaskUpdate (calls (update armGestureRx 0 bootedCraft))
   \<and> \<not> precedes (SensorModifyState Gyrometer) PidTaskUpdate
         (calls (update armGestureRx 0 bootedCraft))
   \<and> \<not> precedes (SensorModifyState Quaternion) PidTaskUpdate
         (calls (update armGestureRx 0 bootedCraft))"
proof -
  have c: "calls (update armGestureRx 0 bootedCraft) =
       [ReceiverGetDemands 0, ShowArmedStatus False, PidTaskUpdate,
        SensorReady Gyrometer, SensorModifyState Gyrometer,
        SensorReady Quaternion, SensorModifyState Quaternion,
        SensorReady Quaternion, SensorModifyState Quaternion,
        SensorReady Gyrometer, SensorModifyState Gyrometer,
        SerialTaskUpdate]"
    by (simp add: update_def updateFull_def checkGyrometer_def checkQuaternion_def
        checkOptionalSensors_def checkSensor_def checkReceiver_defs bootedCraft_eq
        armGestureRx_def idleSensor_def Let_def)
  show ?thesis
    unfolding c by (simp add: bootedCraft_eq)
qed

subsection \<open>The cut on throttle down\<close>

text \<open>
  Claim C8, as the code has it. A tick calls the actuator's \<open>cut()\<close> exactly when the
  signal is lost while armed, or the receiver delivers new data and, after the
  disarming and arming statements of the call, the state is armed and the throttle is
  down; the demand values play no part. So in a tick that starts armed with the
  throttle down, \<open>cut()\<close> is called exactly when the signal is lost, or new data is
  there and the arm switch is still asserted.
\<close>

theorem throttle_down_cut:
  "(ActuatorCut \<in> set (newCalls h (update rx time h)) \<longleftrightarrow>
      (lostSignal rx \<and> armed (state h))
      \<or> (getDemands rx (rotation (state h) AXIS_YAW - yawInitial h)
         \<and> armed (state (checkReceiver rx h)) \<and> throttleIsDown rx))
   \<and> (armed (state h) \<and> throttleIsDown rx \<longrightarrow>
       (ActuatorCut \<in> set (newCalls h (update rx time h)) \<longleftrightarrow>
          lostSignal rx
          \<or> (getDemands rx (rotation (state h) AXIS_YAW - yawInitial h) \<and> getAux1State rx)))"
  unfolding update_cut_iff checkReceiver_cut_iff
  using checkReceiver_stays_armed [of h rx] by blast

theorem throttle_down_cut_witness:
  "armed (state armedCraft) \<and> throttleIsDown armGestureRx
   \<and> ActuatorCut \<in> set (newCalls armedCraft (update armGestureRx 0 armedCraft))"
proof -
  have a: "armed (state armedCraft)"
    by (simp add: armedCraft_eq)
  have r: "throttleIsDown armGestureRx" "getAux1State armGestureRx"
    "getDemands armGestureRx (rotation (state armedCraft) AXIS_YAW - yawInitial armedCraft)"
    by (simp_all add: armGestureRx_def)
  from a r throttle_down_cut [of armedCraft armGestureRx 0] show ?thesis
    by blast
qed

text \<open>
  The claim as it is written has \<open>cut()\<close> called in every tick that finds the state
  armed and the throttle down. In a tick without new receiver data \<open>checkReceiver\<close>
  returns before its throttle-down statement, and the tick calls no \<open>cut()\<close>.
\<close>

theorem no_cut_without_new_data_counterexample:
  "armed (state armedCraft) \<and> throttleIsDown noDataRx
   \<and> armed (state (update noDataRx 0 armedCraft))
   \<and> ActuatorCut \<notin> set (newCalls armedCraft (update noDataRx 0 armedCraft))"
proof -
  have c: "update noDataRx 0 armedCraft =
      armedCraft\<lparr>calls := calls armedCraft @
        [ReceiverGetDemands 0, PidTaskUpdate,
         SensorReady Gyrometer, SensorModifyState Gyrometer,
         SensorReady Quaternion, SensorModifyState Quaternion,
         SensorReady Quaternion, SensorModifyState Quaternion,
         SensorReady Gyrometer, SensorModifyState Gyrometer,
         SerialTaskUpdate]\<rparr>"
    by (simp add: update_def updateFull_def checkGyrometer_def checkQuaternion_def
        checkOptionalSensors_def checkSensor_def checkReceiver_defs armedCraft_eq
        noDataRx_def idleSensor_def tiltedRotation_def Let_def)
  show ?thesis
    unfolding c by (simp add: newCalls_def armedCraft_eq noDataRx_def)
qed

section \<open>Properties of the stabilizer\<close>

lemma constrainAbs_bound: "0 \<le> m \<Longrightarrow> \<bar>Filter_constrainAbs v m\<bar> \<le> m"
  unfolding Filter_constrainAbs_def by (cases "v < - m"; cases "v > m"; simp; linarith)

lemma constrainAbs_id: "\<bar>v\<bar> \<le> m \<Longrightarrow> Filter_constrainAbs v m = v"
  unfolding Filter_constrainAbs_def by (cases "v < - m"; cases "v > m"; simp; linarith)

lemma computeITermGyro_bounded:
  assumes "\<And>a. \<bar>errorGyroI s a\<bar> \<le> gyroWindupMax"
  shows "\<bar>errorGyroI (snd (computeITermGyro rateP rateI rcCommand gyroRate ax s)) a\<bar>
          \<le> gyroWindupMax"
proof -
  have w: "0 \<le> gyroWindupMax" by (simp add: gyroWindupMax_def)
  show ?thesis
    using assms [of a] constrainAbs_bound [OF w] w
    by (simp add: computeITermGyro_def Let_def)
qed

lemma computeCyclicPid_errorGyroI:
  "errorGyroI (snd (computeCyclicPid rcCommand prop eulerAngles gyroRate ax s)) =
   errorGyroI (snd (computeITermGyro (gyroCyclicP s) (gyroCyclicI s) rcCommand gyroRate ax s))"
  by (simp add: computeCyclicPid_def Let_def split_def)

lemma computeCyclicPid_bounded:
  assumes "\<And>a. \<bar>errorGyroI s a\<bar> \<le> gyroWindupMax"
  shows "\<bar>errorGyroI (snd (computeCyclicPid rcCommand prop eulerAngles gyroRate ax s)) a\<bar>
          \<le> gyroWindupMax"
  unfolding computeCyclicPid_errorGyroI using assms by (rule computeITermGyro_bounded)

text \<open>The stabilizer a call of \<open>updateDemands\<close> leaves: its three integrator steps in turn.\<close>

lemma updateDemands_snd:
  "snd (updateDemands vstate demands s) =
    (let eulerAngles = (\<lambda>k. val (orientation (pose vstate) k));
         gyroRate = (\<lambda>k. deriv (orientation (pose vstate) k));
         prop = Filter_max \<bar>roll demands\<bar> \<bar>pitch demands\<bar> / 0.5;
         s1 = snd (computeCyclicPid (roll demands) prop eulerAngles gyroRate AXIS_ROLL s);
         s2 = snd (computeCyclicPid (pitch demands) prop eulerAngles gyroRate AXIS_PITCH s1)
     in snd (computeITermGyro (gyroYawP s2) (gyroYawI s2) (yaw demands) gyroRate AXIS_YAW s2))"
  by (simp add: updateDemands_def Let_def split_def)

lemma updateDemands_bounded:
  assumes "\<And>a. \<bar>errorGyroI s a\<bar> \<le> gyroWindupMax"
  shows "\<bar>errorGyroI (snd (updateDemands vstate demands s)) a\<bar> \<le> gyroWindupMax"
  unfolding updateDemands_snd Let_def
  by (intro computeITermGyro_bounded computeCyclicPid_bounded assms)

lemma updateDemandsSeq_bounded:
  "(\<And>a. \<bar>errorGyroI s a\<bar> \<le> gyroWindupMax) \<Longrightarrow>
   \<bar>errorGyroI (updateDemandsSeq xs s) a\<bar> \<le> gyroWindupMax"
proof (induction xs arbitrary: s a)
  case Nil
  then show ?case by simp
next
  case (Cons x xs)
  show ?case
    unfolding updateDemandsSeq.simps
    by (rule Cons.IH) (rule updateDemands_bounded, rule Cons.prems)
qed

lemma init_errorGyroI: "errorGyroI (Stabilizer_init s) a = 0"
  by (cases a) (simp_all add: Stabilizer_init_def resetIntegral_def Let_def)

subsection \<open>The integrator's bound\<close>

text \<open>
  Claim C3. From an initialized stabilizer, after any sequence of \<open>updateDemands\<close> calls
  with any vehicle states and demands, every axis has
  \<open>|errorGyroI[axis]| \<le> gyroWindupMax = 16\<close>. The list is any list, so the bound holds
  after each call of a sequence.
\<close>

theorem integrator_bounded:
  "\<bar>errorGyroI (updateDemandsSeq xs (Stabilizer_init s)) ax\<bar> \<le> gyroWindupMax
   \<and> gyroWindupMax = 16"
  by (rule conjI, rule updateDemandsSeq_bounded)
    (simp_all add: init_errorGyroI gyroWindupMax_def)

theorem integrator_bounded_witness:
  "\<bar>errorGyroI
      (updateDemandsSeq
         [(vehicleState rollTilt yawSpin, zeroDemands), (vehicleState rollTilt zeroVector, zeroDemands)]
         tunedStabilizer) AXIS_ROLL\<bar> \<le> 16"
  using integrator_bounded
    [of "[(vehicleState rollTilt yawSpin, zeroDemands), (vehicleState rollTilt zeroVector, zeroDemands)]"
      tunedGains AXIS_ROLL]
  by (simp add: tunedStabilizer_def)

subsection \<open>The integrator's reset\<close>

lemma computeITermGyro_fields [simp]:
  "bigGyroRate (snd (computeITermGyro rateP rateI rcCommand gyroRate ax s)) = bigGyroRate s"
  "gyroYawP (snd (computeITermGyro rateP rateI rcCommand gyroRate ax s)) = gyroYawP s"
  "gyroYawI (snd (computeITermGyro rateP rateI rcCommand gyroRate ax s)) = gyroYawI s"
  by (simp_all add: computeITermGyro_def Let_def)

lemma computeCyclicPid_fields [simp]:
  "bigGyroRate (snd (computeCyclicPid rcCommand prop eulerAngles gyroRate ax s)) = bigGyroRate s"
  "gyroYawP (snd (computeCyclicPid rcCommand prop eulerAngles gyroRate ax s)) = gyroYawP s"
  "gyroYawI (snd (computeCyclicPid rcCommand prop eulerAngles gyroRate ax s)) = gyroYawI s"
  "gyroCyclicP (snd (computeCyclicPid rcCommand prop eulerAngles gyroRate ax s)) = gyroCyclicP s"
  "gyroCyclicI (snd (computeCyclicPid rcCommand prop eulerAngles gyroRate ax s)) = gyroCyclicI s"
  "gyroCyclicD (snd (computeCyclicPid rcCommand prop eulerAngles gyroRate ax s)) = gyroCyclicD s"
  "levelP (snd (computeCyclicPid rcCommand prop eulerAngles gyroRate ax s)) = levelP s"
  by (simp_all add: computeCyclicPid_def computeITermGyro_def Let_def split_def)

lemma computeITermGyro_reset:
  "\<bar>gyroRate ax\<bar> > bigGyroRate s \<or> (ax = AXIS_YAW \<and> \<bar>rcCommand\<bar> > bigYawDemand) \<Longrightarrow>
   errorGyroI (snd (computeITermGyro rateP rateI rcCommand gyroRate ax s)) ax = 0"
  by (simp add: computeITermGyro_def Let_def)

lemma computeITermGyro_fst_reset:
  "\<bar>gyroRate ax\<bar> > bigGyroRate s \<or> (ax = AXIS_YAW \<and> \<bar>rcCommand\<bar> > bigYawDemand) \<Longrightarrow>
   fst (computeITermGyro rateP rateI rcCommand gyroRate ax s) = 0"
  by (simp add: computeITermGyro_def Let_def)

lemma computeITermGyro_other:
  "a \<noteq> ax \<Longrightarrow>
   errorGyroI (snd (computeITermGyro rateP rateI rcCommand gyroRate ax s)) a = errorGyroI s a"
  by (simp add: computeITermGyro_def Let_def)

lemma computeCyclicPid_errorGyroI_other:
  "a \<noteq> ax \<Longrightarrow>
   errorGyroI (snd (computeCyclicPid rcCommand prop eulerAngles gyroRate ax s)) a
     = errorGyroI s a"
  by (simp add: computeCyclicPid_errorGyroI computeITermGyro_other)

lemma updateDemands_history_roll:
  "lastGyro (snd (updateDemands vstate demands s)) AXIS_ROLL =
     deriv (orientation (pose vstate) AXIS_ROLL)"
  "delta1 (snd (updateDemands vstate demands s)) AXIS_ROLL =
     deriv (orientation (pose vstate) AXIS_ROLL) - lastGyro s AXIS_ROLL"
  "delta2 (snd (updateDemands vstate demands s)) AXIS_ROLL = delta1 s AXIS_ROLL"
  "gyroCyclicD (snd (updateDemands vstate demands s)) = gyroCyclicD s"
  "levelP (snd (updateDemands vstate demands s)) = levelP s"
  "bigGyroRate (snd (updateDemands vstate demands s)) = bigGyroRate s"
  by (simp_all add: updateDemands_snd computeCyclicPid_def computeITermGyro_def Let_def
      split_def)

lemma updateDemandsSeq_bigGyroRate:
  "bigGyroRate (updateDemandsSeq xs s) = bigGyroRate s"
  by (induction xs arbitrary: s) (simp_all add: updateDemands_history_roll)

lemma init_bigGyroRate:
  "bigGyroRate (updateDemandsSeq xs (Stabilizer_init s)) =
     degreesToRadians bigGyroDegreesPerSecond"
  by (simp add: updateDemandsSeq_bigGyroRate Stabilizer_init_def resetIntegral_def Let_def)

text \<open>
  Claim C7. In a stabilizer whose \<open>bigGyroRate\<close> is what \<open>init\<close> stores (40 degrees per
  second in radians; by \<open>init_bigGyroRate\<close> that is every stabilizer reached from \<open>init\<close>
  by calls of \<open>updateDemands\<close>), a call of \<open>updateDemands\<close> in which the angular rate of
  an axis exceeds that threshold in absolute value, or in which the axis is yaw and the
  yaw demand passed in exceeds \<open>bigYawDemand\<close> (the \<open>float\<close> \<open>0.1f\<close>) in absolute value,
  leaves \<open>errorGyroI\<close> of that axis at zero, whatever it held before.
\<close>

theorem integral_reset:
  assumes big: "bigGyroRate s = degreesToRadians bigGyroDegreesPerSecond"
    and cond: "\<bar>deriv (orientation (pose vstate) ax)\<bar> > degreesToRadians 40
       \<or> (ax = AXIS_YAW \<and> \<bar>yaw demands\<bar> > bigYawDemand)"
  shows "errorGyroI (snd (updateDemands vstate demands s)) ax = 0"
proof (cases ax)
  case AXIS_ROLL
  with big cond show ?thesis
    by (simp add: updateDemands_snd Let_def computeITermGyro_other computeCyclicPid_errorGyroI
        computeITermGyro_reset bigGyroDegreesPerSecond_def)
next
  case AXIS_PITCH
  with big cond show ?thesis
    by (simp add: updateDemands_snd Let_def computeITermGyro_other computeCyclicPid_errorGyroI
        computeITermGyro_reset bigGyroDegreesPerSecond_def)
next
  case AXIS_YAW
  with big cond show ?thesis
    by (simp add: updateDemands_snd Let_def computeITermGyro_reset bigGyroDegreesPerSecond_def)
qed

lemma tunedStabilizer_bigGyroRate:
  "bigGyroRate tunedStabilizer = degreesToRadians bigGyroDegreesPerSecond"
  by (simp add: tunedStabilizer_def Stabilizer_init_def resetIntegral_def Let_def)

theorem integral_reset_witness:
  "bigGyroRate woundUpStabilizer = degreesToRadians bigGyroDegreesPerSecond
   \<and> errorGyroI woundUpStabilizer AXIS_YAW = 5
   \<and> \<bar>deriv (orientation (pose (vehicleState zeroVector yawSpin)) AXIS_YAW)\<bar>
        > degreesToRadians 40
   \<and> errorGyroI (snd (updateDemands (vehicleState zeroVector yawSpin) zeroDemands
        woundUpStabilizer)) AXIS_YAW = 0
   \<and> \<bar>yaw yawStickDemands\<bar> > bigYawDemand
   \<and> errorGyroI (snd (updateDemands (vehicleState zeroVector zeroVector) yawStickDemands
        woundUpStabilizer)) AXIS_YAW = 0"
proof -
  have big: "bigGyroRate woundUpStabilizer = degreesToRadians bigGyroDegreesPerSecond"
    by (simp add: woundUpStabilizer_def tunedStabilizer_bigGyroRate)
  have rate: "\<bar>deriv (orientation (pose (vehicleState zeroVector yawSpin)) AXIS_YAW)\<bar>
        > degreesToRadians 40"
    by (simp add: vehicleState_def yawSpin_def degreesToRadians_def M_PI_def)
  have stick: "\<bar>yaw yawStickDemands\<bar> > bigYawDemand"
    by (simp add: yawStickDemands_def bigYawDemand_def)
  have old: "errorGyroI woundUpStabilizer AXIS_YAW = 5"
    by (simp add: woundUpStabilizer_def)
  from big old rate stick
    integral_reset [of woundUpStabilizer "vehicleState zeroVector yawSpin" AXIS_YAW zeroDemands]
    integral_reset [of woundUpStabilizer "vehicleState zeroVector zeroVector" AXIS_YAW
      yawStickDemands]
  show ?thesis by blast
qed

text \<open>
  The threshold is strict and is the \<open>float\<close>: a yaw demand of exactly \<open>0.1f\<close>, on a craft
  that does not turn, resets nothing, and the integrator goes from 5 to
  \<open>5 + 0.1f * gyroYawP\<close>.
\<close>

lemma yaw_demand_at_threshold:
  "\<not> \<bar>yaw yawThresholdDemands\<bar> > bigYawDemand
   \<and> errorGyroI (snd (updateDemands (vehicleState zeroVector zeroVector) yawThresholdDemands
        woundUpStabilizer)) AXIS_YAW = 5 + bigYawDemand * 1.0625"
proof -
  have g: "gyroYawP woundUpStabilizer = 1.0625"
    by (simp add: woundUpStabilizer_def tunedStabilizer_def tunedGains_def Stabilizer_init_def
        resetIntegral_def Let_def)
  have big: "0 < bigGyroRate woundUpStabilizer"
    by (simp add: woundUpStabilizer_def tunedStabilizer_bigGyroRate degreesToRadians_def
        bigGyroDegreesPerSecond_def M_PI_def)
  have old: "errorGyroI woundUpStabilizer AXIS_YAW = 5"
    by (simp add: woundUpStabilizer_def)
  have rate: "deriv (orientation (pose (vehicleState zeroVector zeroVector)) AXIS_YAW) = 0"
    by (simp add: vehicleState_def zeroVector_def)
  have d: "yaw yawThresholdDemands = bigYawDemand" "0 < bigYawDemand"
    by (simp_all add: yawThresholdDemands_def bigYawDemand_def)
  have step: "errorGyroI (snd (computeITermGyro rateP rateI bigYawDemand
        (\<lambda>k. deriv (orientation (pose (vehicleState zeroVector zeroVector)) k)) AXIS_YAW s2))
        AXIS_YAW = 5 + bigYawDemand * rateP"
    if "errorGyroI s2 AXIS_YAW = 5" "bigGyroRate s2 = bigGyroRate woundUpStabilizer"
      "rateP = 1.0625" for rateP rateI s2
    using that big rate d(2)
    by (simp add: computeITermGyro_def Filter_constrainAbs_def gyroWindupMax_def Let_def
        bigYawDemand_def)
  have y: "errorGyroI (snd (updateDemands (vehicleState zeroVector zeroVector)
        yawThresholdDemands woundUpStabilizer)) AXIS_YAW = 5 + bigYawDemand * 1.0625"
    unfolding updateDemands_snd Let_def d(1)
    by (subst step) (simp_all add: computeCyclicPid_errorGyroI_other old g)
  from d y show ?thesis
    by simp
qed

subsection \<open>Centred sticks on a craft at rest\<close>

lemma computeCyclicPid_lastGyro_other:
  "a \<noteq> ax \<Longrightarrow>
   lastGyro (snd (computeCyclicPid rcCommand prop eulerAngles gyroRate ax s)) a = lastGyro s a
   \<and> delta1 (snd (computeCyclicPid rcCommand prop eulerAngles gyroRate ax s)) a = delta1 s a
   \<and> delta2 (snd (computeCyclicPid rcCommand prop eulerAngles gyroRate ax s)) a = delta2 s a"
  by (simp add: computeCyclicPid_def computeITermGyro_def Let_def split_def)

lemma computeCyclicPid_at_rest:
  assumes "errorGyroI s ax = 0" and "gyroRate ax = 0"
  shows "fst (computeCyclicPid 0 0 eulerAngles gyroRate ax s) =
     - eulerAngles ax * levelP s - (delta1 s ax + delta2 s ax - lastGyro s ax) * gyroCyclicD s"
  using assms
  by (simp add: computeCyclicPid_def computeITermGyro_def computePid_def
      Filter_complementary_def Filter_constrainAbs_def gyroWindupMax_def Let_def split_def)

lemma updateDemands_at_rest:
  assumes d: "roll demands = 0" "pitch demands = 0" "yaw demands = 0"
    and r: "deriv (orientation (pose vstate) AXIS_ROLL) = 0"
      "deriv (orientation (pose vstate) AXIS_PITCH) = 0"
      "deriv (orientation (pose vstate) AXIS_YAW) = 0"
  shows "yaw (fst (updateDemands vstate demands (resetIntegral s))) = 0
   \<and> roll (fst (updateDemands vstate demands (resetIntegral s))) =
       - val (orientation (pose vstate) AXIS_ROLL) * levelP s
       - (delta1 s AXIS_ROLL + delta2 s AXIS_ROLL - lastGyro s AXIS_ROLL) * gyroCyclicD s
   \<and> pitch (fst (updateDemands vstate demands (resetIntegral s))) =
       - val (orientation (pose vstate) AXIS_PITCH) * levelP s
       - (delta1 s AXIS_PITCH + delta2 s AXIS_PITCH - lastGyro s AXIS_PITCH) * gyroCyclicD s"
proof -
  let ?s0 = "resetIntegral s"
  let ?ang = "\<lambda>k. val (orientation (pose vstate) k)"
  let ?rate = "\<lambda>k. deriv (orientation (pose vstate) k)"
  let ?s1 = "snd (computeCyclicPid 0 0 ?ang ?rate AXIS_ROLL ?s0)"
  let ?s2 = "snd (computeCyclicPid 0 0 ?ang ?rate AXIS_PITCH ?s1)"
  have prop0: "Filter_max \<bar>roll demands\<bar> \<bar>pitch demands\<bar> / 0.5 = 0"
    using d by (simp add: Filter_max_def)
  have e0: "errorGyroI ?s0 AXIS_ROLL = 0" "errorGyroI ?s0 AXIS_PITCH = 0"
    "errorGyroI ?s0 AXIS_YAW = 0"
    by (simp_all add: resetIntegral_def)
  have f0: "levelP ?s0 = levelP s" "gyroCyclicD ?s0 = gyroCyclicD s"
    "lastGyro ?s0 = lastGyro s" "delta1 ?s0 = delta1 s" "delta2 ?s0 = delta2 s"
    by (simp_all add: resetIntegral_def)
  have rollv: "fst (computeCyclicPid 0 0 ?ang ?rate AXIS_ROLL ?s0) =
      - ?ang AXIS_ROLL * levelP s
      - (delta1 s AXIS_ROLL + delta2 s AXIS_ROLL - lastGyro s AXIS_ROLL) * gyroCyclicD s"
    using computeCyclicPid_at_rest [of ?s0 AXIS_ROLL ?rate ?ang] e0 r by (simp add: f0)
  have e1: "errorGyroI ?s1 AXIS_PITCH = 0" "errorGyroI ?s1 AXIS_YAW = 0"
    using e0 by (simp_all add: computeCyclicPid_errorGyroI_other)
  have h1: "lastGyro ?s1 AXIS_PITCH = lastGyro s AXIS_PITCH"
    "delta1 ?s1 AXIS_PITCH = delta1 s AXIS_PITCH" "delta2 ?s1 AXIS_PITCH = delta2 s AXIS_PITCH"
    using computeCyclicPid_lastGyro_other [of AXIS_PITCH AXIS_ROLL 0 0 ?ang ?rate ?s0]
    by (simp_all add: f0)
  have pitchv: "fst (computeCyclicPid 0 0 ?ang ?rate AXIS_PITCH ?s1) =
      - ?ang AXIS_PITCH * levelP s
      - (delta1 s AXIS_PITCH + delta2 s AXIS_PITCH - lastGyro s AXIS_PITCH) * gyroCyclicD s"
    using computeCyclicPid_at_rest [of ?s1 AXIS_PITCH ?rate ?ang] e1 r by (simp add: h1 f0)
  have e2: "errorGyroI ?s2 AXIS_YAW = 0"
    using e1 by (simp add: computeCyclicPid_errorGyroI_other)
  have yawi: "fst (computeITermGyro (gyroYawP ?s2) (gyroYawI ?s2) 0 ?rate AXIS_YAW ?s2) = 0"
    using e2 r by (simp add: computeITermGyro_def Filter_constrainAbs_def gyroWindupMax_def
        Let_def)
  have rollr: "roll (fst (updateDemands vstate demands ?s0)) =
      fst (computeCyclicPid 0 0 ?ang ?rate AXIS_ROLL ?s0)"
    using d prop0 by (simp add: updateDemands_def Let_def split_def)
  have pitchr: "pitch (fst (updateDemands vstate demands ?s0)) =
      fst (computeCyclicPid 0 0 ?ang ?rate AXIS_PITCH ?s1)"
    using d prop0 by (simp add: updateDemands_def Let_def split_def)
  have yawr: "yaw (fst (updateDemands vstate demands ?s0)) = 0"
    using d prop0 r yawi
    by (simp add: updateDemands_def Let_def split_def computePid_def Filter_constrainAbs_def)
  from rollr pitchr yawr rollv pitchv show ?thesis
    by simp
qed


text \<open>
  Claim C9, as the code has it. After \<open>resetIntegral()\<close>, one \<open>updateDemands\<close> with all
  angular rates zero and all demands zero gives a zero yaw correction. The roll
  correction is \<open>- angle * levelP - (delta1 + delta2 - lastGyro) * gyroCyclicD\<close>, with
  the Euler angle and the derivative history of the roll axis, and the pitch
  correction likewise: each is zero when its Euler angle is zero and its derivative
  history is zero, as it is right after \<open>init\<close>.
\<close>

theorem zero_input_correction:
  assumes d: "roll demands = 0" "pitch demands = 0" "yaw demands = 0"
    and r: "deriv (orientation (pose vstate) AXIS_ROLL) = 0"
      "deriv (orientation (pose vstate) AXIS_PITCH) = 0"
      "deriv (orientation (pose vstate) AXIS_YAW) = 0"
  shows "yaw (fst (updateDemands vstate demands (resetIntegral s))) = 0
   \<and> roll (fst (updateDemands vstate demands (resetIntegral s))) =
       - val (orientation (pose vstate) AXIS_ROLL) * levelP s
       - (delta1 s AXIS_ROLL + delta2 s AXIS_ROLL - lastGyro s AXIS_ROLL) * gyroCyclicD s
   \<and> pitch (fst (updateDemands vstate demands (resetIntegral s))) =
       - val (orientation (pose vstate) AXIS_PITCH) * levelP s
       - (delta1 s AXIS_PITCH + delta2 s AXIS_PITCH - lastGyro s AXIS_PITCH) * gyroCyclicD s
   \<and> (val (orientation (pose vstate) AXIS_ROLL) = 0 \<and> lastGyro s AXIS_ROLL = 0
        \<and> delta1 s AXIS_ROLL = 0 \<and> delta2 s AXIS_ROLL = 0 \<longrightarrow>
      roll (fst (updateDemands vstate demands (resetIntegral s))) = 0)
   \<and> (val (orientation (pose vstate) AXIS_PITCH) = 0 \<and> lastGyro s AXIS_PITCH = 0
        \<and> delta1 s AXIS_PITCH = 0 \<and> delta2 s AXIS_PITCH = 0 \<longrightarrow>
      pitch (fst (updateDemands vstate demands (resetIntegral s))) = 0)"
  using updateDemands_at_rest [OF d r, of s] by simp

theorem zero_input_correction_witness:
  "roll (fst (updateDemands (vehicleState zeroVector zeroVector) zeroDemands
      (resetIntegral tunedStabilizer))) = 0
   \<and> pitch (fst (updateDemands (vehicleState zeroVector zeroVector) zeroDemands
      (resetIntegral tunedStabilizer))) = 0
   \<and> yaw (fst (updateDemands (vehicleState zeroVector zeroVector) zeroDemands
      (resetIntegral tunedStabilizer))) = 0"
proof -
  have d: "roll zeroDemands = 0" "pitch zeroDemands = 0" "yaw zeroDemands = 0"
    by (simp_all add: zeroDemands_def)
  have r: "deriv (orientation (pose (vehicleState zeroVector zeroVector)) AXIS_ROLL) = 0"
    "deriv (orientation (pose (vehicleState zeroVector zeroVector)) AXIS_PITCH) = 0"
    "deriv (orientation (pose (vehicleState zeroVector zeroVector)) AXIS_YAW) = 0"
    by (simp_all add: vehicleState_def zeroVector_def)
  have z: "val (orientation (pose (vehicleState zeroVector zeroVector)) AXIS_ROLL) = 0"
    "val (orientation (pose (vehicleState zeroVector zeroVector)) AXIS_PITCH) = 0"
    "lastGyro tunedStabilizer AXIS_ROLL = 0" "lastGyro tunedStabilizer AXIS_PITCH = 0"
    "delta1 tunedStabilizer AXIS_ROLL = 0" "delta1 tunedStabilizer AXIS_PITCH = 0"
    "delta2 tunedStabilizer AXIS_ROLL = 0" "delta2 tunedStabilizer AXIS_PITCH = 0"
    by (simp_all add: vehicleState_def zeroVector_def tunedStabilizer_def Stabilizer_init_def
        resetIntegral_def Let_def)
  from z zero_input_correction [OF d r, of tunedStabilizer] show ?thesis
    by simp
qed

lemma kickedStabilizer_history:
  "lastGyro kickedStabilizer AXIS_ROLL = 0"
  "delta1 kickedStabilizer AXIS_ROLL = 0"
  "delta2 kickedStabilizer AXIS_ROLL = - 0.5"
  "gyroCyclicD kickedStabilizer = 0.375"
  by (simp_all add: kickedStabilizer_def updateDemands_history_roll vehicleState_def
      rollKick_def zeroVector_def tunedStabilizer_def tunedGains_def Stabilizer_init_def
      resetIntegral_def Let_def)

text \<open>
  The claim as it is written promises a zero correction on every axis. With centred
  sticks the proportional term is the angle-levelling one, so a craft at rest but tilted
  by 0.1 rad in roll gets the roll correction \<open>- 0.1 * levelP = - 0.02\<close>. And
  \<open>resetIntegral()\<close> leaves the derivative history alone, so a level craft at rest whose
  roll rate was 0.5 rad/s three calls ago gets the roll correction
  \<open>0.5 * gyroCyclicD = 0.1875\<close>.
\<close>

theorem tilted_at_rest_counterexample:
  "roll zeroDemands = 0 \<and> pitch zeroDemands = 0 \<and> yaw zeroDemands = 0
   \<and> deriv (orientation (pose (vehicleState rollTilt zeroVector)) AXIS_ROLL) = 0
   \<and> deriv (orientation (pose (vehicleState rollTilt zeroVector)) AXIS_PITCH) = 0
   \<and> deriv (orientation (pose (vehicleState rollTilt zeroVector)) AXIS_YAW) = 0
   \<and> roll (fst (updateDemands (vehicleState rollTilt zeroVector) zeroDemands
        (resetIntegral tunedStabilizer))) = - 0.02
   \<and> roll (fst (updateDemands (vehicleState rollTilt zeroVector) zeroDemands
        (resetIntegral tunedStabilizer))) \<noteq> 0
   \<and> deriv (orientation (pose (vehicleState zeroVector zeroVector)) AXIS_ROLL) = 0
   \<and> deriv (orientation (pose (vehicleState zeroVector zeroVector)) AXIS_PITCH) = 0
   \<and> deriv (orientation (pose (vehicleState zeroVector zeroVector)) AXIS_YAW) = 0
   \<and> roll (fst (updateDemands (vehicleState zeroVector zeroVector) zeroDemands
        (resetIntegral kickedStabilizer))) = 0.1875
   \<and> roll (fst (updateDemands (vehicleState zeroVector zeroVector) zeroDemands
        (resetIntegral kickedStabilizer))) \<noteq> 0"
proof -
  have d: "roll zeroDemands = 0" "pitch zeroDemands = 0" "yaw zeroDemands = 0"
    by (simp_all add: zeroDemands_def)
  have r: "deriv (orientation (pose (vehicleState rollTilt zeroVector)) AXIS_ROLL) = 0"
    "deriv (orientation (pose (vehicleState rollTilt zeroVector)) AXIS_PITCH) = 0"
    "deriv (orientation (pose (vehicleState rollTilt zeroVector)) AXIS_YAW) = 0"
    by (simp_all add: vehicleState_def zeroVector_def)
  have r': "deriv (orientation (pose (vehicleState zeroVector zeroVector)) AXIS_ROLL) = 0"
    "deriv (orientation (pose (vehicleState zeroVector zeroVector)) AXIS_PITCH) = 0"
    "deriv (orientation (pose (vehicleState zeroVector zeroVector)) AXIS_YAW) = 0"
    by (simp_all add: vehicleState_def zeroVector_def)
  have z: "val (orientation (pose (vehicleState rollTilt zeroVector)) AXIS_ROLL) = 0.1"
    "levelP tunedStabilizer = 0.2"
    "lastGyro tunedStabilizer AXIS_ROLL = 0" "delta1 tunedStabilizer AXIS_ROLL = 0"
    "delta2 tunedStabilizer AXIS_ROLL = 0"
    by (simp_all add: vehicleState_def rollTilt_def tunedStabilizer_def tunedGains_def
        Stabilizer_init_def resetIntegral_def Let_def)
  have z': "val (orientation (pose (vehicleState zeroVector zeroVector)) AXIS_ROLL) = 0"
    by (simp add: vehicleState_def zeroVector_def)
  from d r r' updateDemands_at_rest [OF d r, of tunedStabilizer]
    updateDemands_at_rest [OF d r', of kickedStabilizer]
  show ?thesis
    by (simp add: z z' kickedStabilizer_history)
qed

subsection \<open>The yaw clamp\<close>

text \<open>
  The last statement of \<open>updateDemands\<close> clamps the yaw demand to a bound computed from
  that same value, the PID's output, which by then has replaced the demand that came
  in. Such a clamp returns its argument: the yaw demand going out is the output of
  \<open>computePid\<close>.
\<close>

lemma yaw_clamp_is_identity:
  "yaw (fst (updateDemands vstate demands s)) =
    (let gyroRate = (\<lambda>k. deriv (orientation (pose vstate) k));
         prop = Filter_max \<bar>roll demands\<bar> \<bar>pitch demands\<bar> / 0.5;
         s1 = snd (computeCyclicPid (roll demands) prop
                (\<lambda>k. val (orientation (pose vstate) k)) gyroRate AXIS_ROLL s);
         s2 = snd (computeCyclicPid (pitch demands) prop
                (\<lambda>k. val (orientation (pose vstate) k)) gyroRate AXIS_PITCH s1)
     in computePid (gyroYawP s) (yaw demands)
          (fst (computeITermGyro (gyroYawP s) (gyroYawI s) (yaw demands) gyroRate AXIS_YAW s2))
          0 gyroRate AXIS_YAW)"
  by (simp add: updateDemands_def Let_def split_def constrainAbs_id)

text \<open>
  Claim C4 does not hold of the code. With the yaw stick centred (a raw yaw demand of 0)
  and the craft turning at 1 rad/s about the yaw axis, the yaw demand that
  \<open>updateDemands\<close> returns is \<open>- gyroYawP = - 1.0625\<close>: its absolute value is above
  \<open>0.1 + |0|\<close>.
\<close>

theorem yaw_clamp_evaluation:
  "yaw zeroDemands = 0
   \<and> yaw (fst (updateDemands (vehicleState zeroVector yawSpin) zeroDemands tunedStabilizer))
       = - 1.0625
   \<and> \<not> \<bar>yaw (fst (updateDemands (vehicleState zeroVector yawSpin) zeroDemands
           tunedStabilizer))\<bar> \<le> 0.1 + \<bar>yaw zeroDemands\<bar>"
proof -
  let ?rate = "\<lambda>k. deriv (orientation (pose (vehicleState zeroVector yawSpin)) k)"
  have d: "yaw zeroDemands = 0"
    by (simp add: zeroDemands_def)
  have g: "gyroYawP tunedStabilizer = 1.0625"
    by (simp add: tunedStabilizer_def tunedGains_def Stabilizer_init_def resetIntegral_def
        Let_def)
  have rate: "?rate AXIS_YAW = 1"
    by (simp add: vehicleState_def yawSpin_def)
  have big: "bigGyroRate tunedStabilizer < 1"
    by (simp add: tunedStabilizer_bigGyroRate degreesToRadians_def bigGyroDegreesPerSecond_def
        M_PI_def)
  have i: "fst (computeITermGyro rateP rateI 0 ?rate AXIS_YAW s2) = 0"
    if "bigGyroRate s2 = bigGyroRate tunedStabilizer" for rateP rateI s2
    by (rule computeITermGyro_fst_reset) (simp add: that rate big)
  have y: "yaw (fst (updateDemands (vehicleState zeroVector yawSpin) zeroDemands
      tunedStabilizer)) = - 1.0625"
    unfolding yaw_clamp_is_identity Let_def d
    by (simp add: i computePid_def g rate)
  from d y show ?thesis
    by simp
qed

end
